theory Spec2Isabelle
  imports Complex_Main "HOL-Library.AList" "HOL-Library.Multiset"
begin

section \<open>Python strings\<close>

text \<open>
  A Python \<open>str\<close> is a sequence of code points. The model reads a \<^typ>\<open>char\<close> as one
  code point in the range U+0000 .. U+00FF, so a \<^typ>\<open>string\<close> is a Python string over
  that range and \<^const>\<open>length\<close> counts code points, as \<open>len\<close> does.
\<close>

definition py_isspace :: "char \<Rightarrow> bool" where
  \<comment> \<open>\<open>str.isspace\<close> on one code point below U+0100: TAB .. CR, FS .. US, SPACE, NEL, NBSP.\<close>
  "py_isspace c =
     (let n = (of_char c :: nat)
      in (9 \<le> n \<and> n \<le> 13) \<or> (28 \<le> n \<and> n \<le> 32) \<or> n = 133 \<or> n = 160)"

definition py_strip :: "string \<Rightarrow> string" where
  \<comment> \<open>\<open>s.strip()\<close>: leading and trailing whitespace removed.\<close>
  "py_strip s = rev (dropWhile py_isspace (rev (dropWhile py_isspace s)))"

definition py_lower_char :: "char \<Rightarrow> char" where
  \<comment> \<open>Below U+0100 the upper-case letters are A .. Z and U+00C0 .. U+00DE without U+00D7;
      each has its lower-case form 32 code points later.\<close>
  "py_lower_char c =
     (let n = (of_char c :: nat)
      in if (65 \<le> n \<and> n \<le> 90) \<or> (192 \<le> n \<and> n \<le> 222 \<and> n \<noteq> 215)
         then char_of (n + 32) else c)"

definition py_lower :: "string \<Rightarrow> string" where
  "py_lower s = map py_lower_char s"

function py_replace :: "string \<Rightarrow> string \<Rightarrow> string \<Rightarrow> string" where
  \<comment> \<open>\<open>s.replace(old, new)\<close>: the occurrences of \<open>old\<close> are found from the left and do not
      overlap; an empty \<open>old\<close> matches before every code point and at the end.\<close>
  "py_replace old new s =
     (if old = [] then new @ concat (map (\<lambda>c. c # new) s)
      else if s = [] then []
      else if take (length old) s = old
           then new @ py_replace old new (drop (length old) s)
           else hd s # py_replace old new (tl s))"
  by pat_completeness auto
termination
  by (relation "measure (\<lambda>(old, new, s). length s)") (auto simp: length_greater_0_conv)

declare py_replace.simps [simp del]

section \<open>Symptom normalisation\<close>

datatype pyobj = Str string | NonStr

definition normalize_symptom :: "pyobj \<Rightarrow> string" where
  \<comment> \<open>\<open>model.py\<close>, \<open>normalize_symptom\<close>.\<close>
  "normalize_symptom symptom =
     (case symptom of
        NonStr \<Rightarrow> []
      | Str s \<Rightarrow> py_replace ''__'' ''_'' (py_replace '' '' ''_'' (py_lower (py_strip s))))"

definition clean_symptom :: "string \<Rightarrow> string" where
  \<comment> \<open>\<open>encoding.py\<close>, the expression bound to \<open>clean_symptom\<close> in \<open>encode_user_symptoms\<close>.\<close>
  "clean_symptom symptom = py_replace '' '' ''_'' (py_lower (py_strip symptom))"

section \<open>Dictionaries\<close>

definition dict_get :: "('k \<rightharpoonup> 'v) \<Rightarrow> 'k \<Rightarrow> 'v \<Rightarrow> 'v" where
  \<comment> \<open>\<open>d.get(key, default)\<close>.\<close>
  "dict_get d key dflt = (case d key of None \<Rightarrow> dflt | Some v \<Rightarrow> v)"

definition enum_dict :: "string list \<Rightarrow> (string \<rightharpoonup> nat)" where
  \<comment> \<open>\<open>{name: i for i, name in enumerate(names)}\<close>: a later index overwrites an earlier one.\<close>
  "enum_dict names = fold (\<lambda>(i, name) m. m(name \<mapsto> i)) (enumerate 0 names) Map.empty"

section \<open>Feature encoder\<close>

text \<open>
  The request body is a dictionary; under the key \<open>symptoms\<close> it holds the list of symptom
  strings. The route in \<open>app.py\<close> answers a body whose \<open>symptoms\<close> is not a non-empty
  list before it calls the encoder, and the request contract makes the elements strings, so
  the model types them as strings: \<open>symptom.strip()\<close> on another value is outside it. The
  severity table maps a symptom name to its integer weight.

  The index written by \<^const>\<open>list_update\<close> comes from the feature dictionary and is below
  the length of the vector (\<open>enum_dict_Some\<close> below), so the assignment never goes out of
  range.
\<close>

type_synonym request = "string \<rightharpoonup> string list"
type_synonym severity_table = "string \<rightharpoonup> int"

definition encode_symptom ::
  "(string \<rightharpoonup> nat) \<Rightarrow> severity_table \<Rightarrow> string \<Rightarrow> int list \<Rightarrow> int list" where
  \<comment> \<open>\<open>encoding.py\<close>, one pass of the loop of \<open>encode_user_symptoms\<close>.\<close>
  "encode_symptom feature_to_idx severity_lookup symptom vector =
     (case feature_to_idx (clean_symptom symptom) of
        None \<Rightarrow> vector
      | Some index \<Rightarrow> vector[index := dict_get severity_lookup symptom 1])"

definition encode_user_symptoms :: "request \<Rightarrow> string list \<Rightarrow> severity_table \<Rightarrow> int list" where
  \<comment> \<open>\<open>encoding.py\<close>, \<open>encode_user_symptoms\<close>.\<close>
  "encode_user_symptoms request_json feature_columns severity_lookup =
     (let vector = replicate (length feature_columns) 0;
          input_symptoms = dict_get request_json ''symptoms'' [];
          feature_to_idx = enum_dict feature_columns
      in fold (encode_symptom feature_to_idx severity_lookup) input_symptoms vector)"

section \<open>Numbers\<close>

text \<open>
  Probabilities and scores are Python floats. Every finite float is a rational number, and
  the model computes with rationals exactly: sums, products and quotients are not rounded
  to the nearest float.
\<close>

definition round_half_even :: "rat \<Rightarrow> int" where
  \<comment> \<open>The nearest integer, a tie to the even one.\<close>
  "round_half_even x =
     (let f = \<lfloor>x\<rfloor>; d = x - of_int f
      in if d < 1 / 2 then f else if 1 / 2 < d then f + 1 else if even f then f else f + 1)"

definition py_round :: "rat \<Rightarrow> nat \<Rightarrow> rat" where
  \<comment> \<open>\<open>round(x, ndigits)\<close>: to the nearest multiple of \<open>10 ** -ndigits\<close>, a tie to the even one.\<close>
  "py_round x ndigits = of_int (round_half_even (x * 10 ^ ndigits)) / 10 ^ ndigits"

section \<open>Classifier and top-K ranking\<close>

text \<open>
  The classifier is a trained artifact that the code loads and calls; the model takes it as
  a parameter: its list of class labels (\<open>model.classes_\<close>) and its probability function
  (\<open>model.predict_proba([vector])[0]\<close>), which may raise, for one on a vector of the wrong
  length. An exception is a value: \<open>KeyError\<close> for a missing dictionary key,
  \<open>IndexError\<close> for an index past the end of the probabilities, \<open>ValueError\<close> for what the
  classifier raises. The class labels are strings, so \<open>str(disease)\<close> is the label itself.
\<close>

datatype error = KeyError | IndexError | ValueError

record classifier =
  model_classes :: "string list"
  predict_proba :: "int list \<Rightarrow> error + rat list"

record prediction =
  disease :: string
  probability :: rat

definition py_slice_to :: "'a list \<Rightarrow> int \<Rightarrow> 'a list" where
  \<comment> \<open>\<open>xs[:k]\<close>: a negative \<open>k\<close> counts from the end.\<close>
  "py_slice_to xs k = (if 0 \<le> k then take (nat k) xs else take (length xs - nat (- k)) xs)"

definition sorted_by_probability :: "(string \<times> rat) list \<Rightarrow> (string \<times> rat) list" where
  \<comment> \<open>\<open>sorted(pairs, key=lambda x: x[1], reverse=True)\<close>: descending in the key, and stable,
      so pairs with equal keys keep their order; that is the stable ascending sort by the
      negated key.\<close>
  "sorted_by_probability pairs = sort_key (\<lambda>x. - snd x) pairs"

definition rank_top_k :: "string list \<Rightarrow> rat list \<Rightarrow> int \<Rightarrow> prediction list" where
  \<comment> \<open>\<open>predict.py\<close>, lines 54 to 69 of \<open>predict_top_k_from_json\<close>.\<close>
  "rank_top_k classes probabilities k =
     (let disease_probs = sorted_by_probability (zip classes probabilities)
      in map (\<lambda>(d, p). \<lparr>disease = d, probability = py_round p 4\<rparr>)
           (py_slice_to disease_probs k))"

definition predict_top_k_from_json ::
  "classifier \<Rightarrow> request \<Rightarrow> string list \<Rightarrow> severity_table \<Rightarrow> int \<Rightarrow> error + prediction list" where
  \<comment> \<open>\<open>predict.py\<close>, \<open>predict_top_k_from_json\<close>.\<close>
  "predict_top_k_from_json model request_json feature_columns severity_table k =
     (let vector = encode_user_symptoms request_json feature_columns severity_table
      in case predict_proba model vector of
           Inl e \<Rightarrow> Inl e
         | Inr probabilities \<Rightarrow> Inr (rank_top_k (model_classes model) probabilities k))"

section \<open>Contribution analysis\<close>

record contribution_entry =
  raw :: rat
  scaled :: rat

type_synonym raw_results = "(string \<times> (string \<times> rat) list) list"

definition py_index :: "'a list \<Rightarrow> nat \<Rightarrow> error + 'a" where
  \<comment> \<open>\<open>xs[i]\<close> for an index that is not negative.\<close>
  "py_index xs i = (if i < length xs then Inr (xs ! i) else Inl IndexError)"

definition leave_one_out ::
  "classifier \<Rightarrow> severity_table \<Rightarrow> int list \<Rightarrow> nat \<Rightarrow> rat \<Rightarrow> nat \<Rightarrow> string \<Rightarrow> error + rat" where
  \<comment> \<open>\<open>predict.py\<close>, lines 115 to 128: the score of one symptom for one disease.\<close>
  "leave_one_out model severity_table baseline_vector d_idx baseline_prob s_idx symptom =
     (let temp_vector = baseline_vector[s_idx := 0]
      in case predict_proba model temp_vector of
           Inl e \<Rightarrow> Inl e
         | Inr new_probs \<Rightarrow>
             (case py_index new_probs d_idx of
                Inl e \<Rightarrow> Inl e
              | Inr new_prob \<Rightarrow>
                  (let prob_drop = max 0 (baseline_prob - new_prob);
                       weight = dict_get severity_table symptom 1
                   in Inr (prob_drop * of_int weight))))"

fun symptom_scores ::
  "classifier \<Rightarrow> severity_table \<Rightarrow> (string \<rightharpoonup> nat) \<Rightarrow> int list \<Rightarrow> nat \<Rightarrow> rat \<Rightarrow>
   string list \<Rightarrow> (string \<times> rat) list \<Rightarrow> error + (string \<times> rat) list" where
  \<comment> \<open>\<open>predict.py\<close>, the loop over \<open>selected_symptoms\<close>; \<open>disease_scores\<close> is a dictionary in
      insertion order.\<close>
  "symptom_scores model sev f2i bv d_idx bp [] disease_scores = Inr disease_scores"
| "symptom_scores model sev f2i bv d_idx bp (symptom # rest) disease_scores =
     (case f2i symptom of
        None \<Rightarrow> symptom_scores model sev f2i bv d_idx bp rest disease_scores
      | Some s_idx \<Rightarrow>
          (case leave_one_out model sev bv d_idx bp s_idx symptom of
             Inl e \<Rightarrow> Inl e
           | Inr score \<Rightarrow>
               symptom_scores model sev f2i bv d_idx bp rest
                 (AList.update symptom score disease_scores)))"

fun raw_impact ::
  "classifier \<Rightarrow> severity_table \<Rightarrow> (string \<rightharpoonup> nat) \<Rightarrow> (string \<rightharpoonup> nat) \<Rightarrow> int list \<Rightarrow>
   rat list \<Rightarrow> string list \<Rightarrow> prediction list \<Rightarrow> raw_results \<Rightarrow> error + raw_results" where
  \<comment> \<open>\<open>predict.py\<close>, the loop over \<open>predictions\<close>.\<close>
  "raw_impact model sev d2i f2i bv bps selected [] raw_impact_results = Inr raw_impact_results"
| "raw_impact model sev d2i f2i bv bps selected (pred # rest) raw_impact_results =
     (case d2i (disease pred) of
        None \<Rightarrow> Inl KeyError
      | Some d_idx \<Rightarrow>
          (case py_index bps d_idx of
             Inl e \<Rightarrow> Inl e
           | Inr baseline_prob \<Rightarrow>
               (case symptom_scores model sev f2i bv d_idx baseline_prob selected [] of
                  Inl e \<Rightarrow> Inl e
                | Inr disease_scores \<Rightarrow>
                    raw_impact model sev d2i f2i bv bps selected rest
                      (AList.update (disease pred) disease_scores raw_impact_results))))"

definition all_scores :: "raw_results \<Rightarrow> rat list" where
  \<comment> \<open>\<open>[score for d_scores in raw_impact_results.values() for score in d_scores.values()]\<close>.\<close>
  "all_scores raw_impact_results = concat (map (\<lambda>(d, d_scores). map snd d_scores) raw_impact_results)"

definition highest_impact :: "raw_results \<Rightarrow> rat" where
  \<comment> \<open>\<open>max(all_scores) if all_scores else 1\<close>.\<close>
  "highest_impact raw_impact_results =
     (case all_scores raw_impact_results of [] \<Rightarrow> 1 | x # xs \<Rightarrow> fold max xs x)"

definition final_entry :: "rat \<Rightarrow> rat \<Rightarrow> contribution_entry" where
  \<comment> \<open>\<open>predict.py\<close>, lines 141 to 144: the entry reported for one score.\<close>
  "final_entry highest score =
     \<lparr>raw = py_round score 6,
      scaled = (if 0 < highest then py_round ((score / highest) * 100) 2 else 0)\<rparr>"

definition final_analysis :: "raw_results \<Rightarrow> (string \<times> (string \<times> contribution_entry) list) list" where
  \<comment> \<open>\<open>predict.py\<close>, lines 132 to 149.\<close>
  "final_analysis raw_impact_results =
     (let highest = highest_impact raw_impact_results
      in map (\<lambda>(d, scores). (d, map (\<lambda>(symptom, score). (symptom, final_entry highest score)) scores))
           raw_impact_results)"

definition calculate_symptom_contributions ::
  "classifier \<Rightarrow> request \<Rightarrow> prediction list \<Rightarrow> string list \<Rightarrow> severity_table \<Rightarrow>
   error + (string \<times> (string \<times> contribution_entry) list) list" where
  \<comment> \<open>\<open>predict.py\<close>, \<open>calculate_symptom_contributions\<close>.\<close>
  "calculate_symptom_contributions model request_json predictions feature_columns severity_table =
     (let selected_symptoms = dict_get request_json ''symptoms'' [];
          baseline_vector = encode_user_symptoms request_json feature_columns severity_table
      in case predict_proba model baseline_vector of
           Inl e \<Rightarrow> Inl e
         | Inr baseline_probs \<Rightarrow>
             (let disease_to_idx = enum_dict (model_classes model);
                  feature_to_idx = enum_dict feature_columns
              in case raw_impact model severity_table disease_to_idx feature_to_idx baseline_vector
                        baseline_probs selected_symptoms predictions [] of
                   Inl e \<Rightarrow> Inl e
                 | Inr raw_impact_results \<Rightarrow> Inr (final_analysis raw_impact_results)))"

section \<open>Notions used in the statements\<close>

definition last_symptom_for :: "string list \<Rightarrow> string list \<Rightarrow> nat \<Rightarrow> string option" where
  \<comment> \<open>The last input symptom that the encoder maps to dimension \<open>i\<close>, if there is one.\<close>
  "last_symptom_for feature_columns input_symptoms i =
     find (\<lambda>s. enum_dict feature_columns (clean_symptom s) = Some i) (rev input_symptoms)"

definition is_separator :: "char \<Rightarrow> bool" where
  \<comment> \<open>The two characters that are an underscore after \<open>replace(" ", "_")\<close>.\<close>
  "is_separator c = (c = CHR '' '' \<or> c = CHR ''_'')"

fun long_separator_run :: "string \<Rightarrow> bool" where
  \<comment> \<open>Three or more separators in a row somewhere in the string.\<close>
  "long_separator_run (a # b # c # cs) =
     ((is_separator a \<and> is_separator b \<and> is_separator c) \<or> long_separator_run (b # c # cs))"
| "long_separator_run cs = False"

definition space_to_underscore :: "char \<Rightarrow> char" where
  \<comment> \<open>What \<open>replace(" ", "_")\<close> does to one character.\<close>
  "space_to_underscore c = (if c = CHR '' '' then CHR ''_'' else c)"

fun collapse_underscores :: "string \<Rightarrow> string" where
  \<comment> \<open>\<open>replace("__", "_")\<close> written by cases; shown equal to \<^const>\<open>py_replace\<close> below.\<close>
  "collapse_underscores (a # b # cs) =
     (if a = CHR ''_'' \<and> b = CHR ''_'' then CHR ''_'' # collapse_underscores cs
      else a # collapse_underscores (b # cs))"
| "collapse_underscores cs = cs"

fun has_double :: "string \<Rightarrow> bool" where
  \<comment> \<open>The string contains \<open>__\<close>.\<close>
  "has_double (a # b # cs) = ((a = CHR ''_'' \<and> b = CHR ''_'') \<or> has_double (b # cs))"
| "has_double cs = False"

fun has_triple :: "string \<Rightarrow> bool" where
  \<comment> \<open>The string contains \<open>___\<close>.\<close>
  "has_triple (a # b # c # cs) =
     ((a = CHR ''_'' \<and> b = CHR ''_'' \<and> c = CHR ''_'') \<or> has_triple (b # c # cs))"
| "has_triple cs = False"

definition class_probability :: "classifier \<Rightarrow> int list \<Rightarrow> string \<Rightarrow> rat option" where
  \<comment> \<open>The probability the classifier gives class \<open>d\<close> on a vector, when it gives one.\<close>
  "class_probability model vector d =
     (case predict_proba model vector of
        Inl e \<Rightarrow> None
      | Inr probs \<Rightarrow>
          (case enum_dict (model_classes model) d of
             None \<Rightarrow> None
           | Some d_idx \<Rightarrow> (if d_idx < length probs then Some (probs ! d_idx) else None)))"

definition demo_classifier :: classifier where
  \<comment> \<open>A classifier with two classes, fixed on four vectors, for the concrete instances.\<close>
  "demo_classifier =
     \<lparr>model_classes = [''FungalInfection'', ''Flu''],
      predict_proba = (\<lambda>v.
        if v = [1, 3, 0] then Inr [95 / 100, 5 / 100]
        else if v = [0, 3, 0] then Inr [90 / 100, 10 / 100]
        else if v = [1, 0, 0] then Inr [70 / 100, 30 / 100]
        else Inr [1 / 2, 1 / 2])\<rparr>"

section \<open>Normalisation at training time and at inference time\<close>

text \<open>
  C2. Training builds the feature names with \<^const>\<open>normalize_symptom\<close>; the encoder cleans a
  user symptom with \<^const>\<open>clean_symptom\<close>, which has no step for a double underscore. On
  the symptom \<open>skin  rash\<close> (two spaces) the two keys differ: training names the feature
  \<open>skin_rash\<close>, the encoder looks for \<open>skin__rash\<close>, finds no such feature and leaves the
  vector at zero, while \<open>skin rash\<close> (one space) is encoded.
\<close>

theorem normalize_differs_from_encoder_cleaning:
  "normalize_symptom (Str ''skin  rash'') = ''skin_rash'' \<and>
   clean_symptom ''skin  rash'' = ''skin__rash'' \<and>
   encode_user_symptoms [''symptoms'' \<mapsto> [''skin  rash'']]
     [normalize_symptom (Str ''skin  rash'')] Map.empty = [0] \<and>
   encode_user_symptoms [''symptoms'' \<mapsto> [''skin rash'']]
     [normalize_symptom (Str ''skin  rash'')] Map.empty = [1]"
  by code_simp

section \<open>Properties of the feature encoder\<close>

lemma enum_dict_Nil: "enum_dict [] = Map.empty"
  by (simp add: enum_dict_def)

lemma enum_dict_snoc: "enum_dict (xs @ [x]) = (enum_dict xs)(x \<mapsto> length xs)"
  by (simp add: enum_dict_def enumerate_append_eq)

lemma enum_dict_Some: "enum_dict xs n = Some i \<Longrightarrow> i < length xs \<and> xs ! i = n"
proof (induction xs rule: rev_induct)
  case Nil
  then show ?case by (simp add: enum_dict_Nil)
next
  case (snoc x xs)
  then show ?case
    by (auto simp: enum_dict_snoc nth_append split: if_splits)
qed

lemma dom_enum_dict: "dom (enum_dict xs) = set xs"
proof (induction xs rule: rev_induct)
  case Nil
  show ?case by (simp add: enum_dict_Nil)
next
  case (snoc x xs)
  have "dom (enum_dict (xs @ [x])) = insert x (dom (enum_dict xs))"
    unfolding enum_dict_snoc by (simp only: dom_fun_upd option.simps if_False)
  with snoc show ?case by simp
qed

lemma enum_dict_None: "enum_dict xs n = None \<longleftrightarrow> n \<notin> set xs"
  using dom_enum_dict [of xs] by (metis domIff)

lemma enum_dict_last: "enum_dict xs n = Some i \<Longrightarrow> j < length xs \<Longrightarrow> i < j \<Longrightarrow> xs ! j \<noteq> n"
proof (induction xs rule: rev_induct)
  case Nil
  then show ?case by simp
next
  case (snoc x xs)
  then show ?case
    by (auto simp: enum_dict_snoc nth_append split: if_splits dest: enum_dict_Some)
qed

lemma enum_dict_distinct: "distinct xs \<Longrightarrow> i < length xs \<Longrightarrow> enum_dict xs (xs ! i) = Some i"
proof (induction xs rule: rev_induct)
  case Nil
  then show ?case by simp
next
  case (snoc x xs)
  then show ?case
    by (auto simp: enum_dict_snoc nth_append less_Suc_eq)
qed

lemma length_encode_symptom: "length (encode_symptom f sev s v) = length v"
  by (simp add: encode_symptom_def split: option.splits)

lemma length_fold_encode: "length (fold (encode_symptom f sev) syms v) = length v"
  by (induction syms arbitrary: v) (simp_all add: length_encode_symptom)

lemma nth_encode_symptom:
  "i < length v \<Longrightarrow>
   encode_symptom f sev s v ! i = (if f (clean_symptom s) = Some i then dict_get sev s 1 else v ! i)"
  by (auto simp: encode_symptom_def split: option.splits)

lemma nth_fold_encode:
  "i < length v \<Longrightarrow>
   fold (encode_symptom f sev) syms v ! i =
     (case find (\<lambda>s. f (clean_symptom s) = Some i) (rev syms) of
        None \<Rightarrow> v ! i
      | Some s \<Rightarrow> dict_get sev s 1)"
proof (induction syms rule: rev_induct)
  case Nil
  then show ?case by simp
next
  case (snoc s syms)
  then show ?case
    by (simp add: nth_encode_symptom length_fold_encode)
qed

lemma encode_symptom_unknown:
  "f (clean_symptom s) = None \<Longrightarrow> encode_symptom f sev s v = v"
  by (simp add: encode_symptom_def)

lemma find_append_case:
  "find P (xs @ ys) = (case find P xs of None \<Rightarrow> find P ys | Some x \<Rightarrow> Some x)"
  by (induction xs) auto

lemma nth_encode_user_symptoms:
  "i < length fc \<Longrightarrow>
   encode_user_symptoms rq fc sev ! i =
     (case last_symptom_for fc (dict_get rq ''symptoms'' []) i of
        None \<Rightarrow> 0 | Some s \<Rightarrow> dict_get sev s 1)"
  by (simp add: encode_user_symptoms_def last_symptom_for_def nth_fold_encode split: option.splits)

lemma length_encode_user_symptoms: "length (encode_user_symptoms rq fc sev) = length fc"
  by (simp add: encode_user_symptoms_def length_fold_encode)




lemma last_symptom_for_drop_earlier:
  assumes "clean_symptom x = clean_symptom s"
  shows "last_symptom_for fc (zs @ x # ws @ s # ys) j = last_symptom_for fc (zs @ ws @ s # ys) j"
  using assms by (simp add: last_symptom_for_def find_append_case split: option.splits)

lemma last_symptom_for_last:
  assumes "enum_dict fc (clean_symptom s) = Some i"
    and "\<forall>y\<in>set ys. clean_symptom y \<noteq> clean_symptom s"
  shows "last_symptom_for fc (xs @ s # ys) i = Some s"
proof -
  have "enum_dict fc (clean_symptom y) \<noteq> Some i" if "y \<in> set ys" for y
  proof
    assume "enum_dict fc (clean_symptom y) = Some i"
    from enum_dict_Some [OF this] enum_dict_Some [OF assms(1)] assms(2) that
    show False by auto
  qed
  then have "find (\<lambda>s. enum_dict fc (clean_symptom s) = Some i) (rev ys) = None"
    by (simp add: find_None_iff)
  then show ?thesis
    using assms(1) by (simp add: last_symptom_for_def find_append_case)
qed



text \<open>
  C9. A symptom whose cleaned form is no feature column is dropped: the vector is the one
  encoded from the request without that symptom. The encoder is a total function on lists of
  strings, so nothing is raised.
\<close>

theorem unknown_symptom_dropped:
  assumes "rq ''symptoms'' = Some (xs @ s # ys)"
    and "clean_symptom s \<notin> set fc"
  shows "encode_user_symptoms rq fc sev =
         encode_user_symptoms (rq(''symptoms'' \<mapsto> xs @ ys)) fc sev"
proof -
  have "enum_dict fc (clean_symptom s) = None"
    using assms(2) by (simp add: enum_dict_None)
  then have "encode_symptom (enum_dict fc) sev s v = v" for v
    by (rule encode_symptom_unknown)
  then show ?thesis
    using assms(1) by (simp add: encode_user_symptoms_def dict_get_def)
qed

theorem unknown_symptom_dropped_witness:
  "[''symptoms'' \<mapsto> [''itching'', ''not a real symptom'', ''fatigue'']] ''symptoms''
     = Some ([''itching''] @ ''not a real symptom'' # [''fatigue'']) \<and>
   clean_symptom ''not a real symptom'' \<notin> set [''itching'', ''skin_rash'', ''fatigue''] \<and>
   encode_user_symptoms [''symptoms'' \<mapsto> [''itching'', ''not a real symptom'', ''fatigue'']]
     [''itching'', ''skin_rash'', ''fatigue''] [''fatigue'' \<mapsto> 4] =
   encode_user_symptoms [''symptoms'' \<mapsto> [''itching'', ''fatigue'']]
     [''itching'', ''skin_rash'', ''fatigue''] [''fatigue'' \<mapsto> 4]"
proof -
  have h1: "[''symptoms'' \<mapsto> [''itching'', ''not a real symptom'', ''fatigue'']] ''symptoms''
     = Some ([''itching''] @ ''not a real symptom'' # [''fatigue''])"
    by simp
  have h2: "clean_symptom ''not a real symptom'' \<notin> set [''itching'', ''skin_rash'', ''fatigue'']"
    by code_simp
  show ?thesis
    using h1 h2
      unknown_symptom_dropped [where rq = "[''symptoms'' \<mapsto> [''itching'', ''not a real symptom'', ''fatigue'']]"
        and xs = "[''itching'']" and s = "''not a real symptom''" and ys = "[''fatigue'']"
        and fc = "[''itching'', ''skin_rash'', ''fatigue'']" and sev = "[''fatigue'' \<mapsto> 4]", OF h1 h2]
    by simp
qed

text \<open>
  C10. When the last input symptom that cleans to a feature name is \<open>s\<close>, the dimension of
  that name holds the weight looked up for \<open>s\<close>, and taking away any earlier symptom with
  the same cleaned form leaves the vector unchanged.
\<close>

theorem last_write_wins:
  assumes "rq ''symptoms'' = Some (xs @ s # ys)"
    and "enum_dict fc (clean_symptom s) = Some i"
    and "\<forall>y\<in>set ys. clean_symptom y \<noteq> clean_symptom s"
  shows "encode_user_symptoms rq fc sev ! i = dict_get sev s 1 \<and>
         (\<forall>zs x ws. xs = zs @ x # ws \<and> clean_symptom x = clean_symptom s \<longrightarrow>
            encode_user_symptoms (rq(''symptoms'' \<mapsto> zs @ ws @ s # ys)) fc sev =
            encode_user_symptoms rq fc sev)"
proof (intro conjI allI impI)
  have g: "dict_get rq ''symptoms'' [] = xs @ s # ys"
    using assms(1) by (simp add: dict_get_def)
  have "i < length fc"
    using enum_dict_Some [OF assms(2)] by simp
  then show "encode_user_symptoms rq fc sev ! i = dict_get sev s 1"
    by (simp add: nth_encode_user_symptoms g last_symptom_for_last [OF assms(2,3)])
  fix zs x ws
  assume a: "xs = zs @ x # ws \<and> clean_symptom x = clean_symptom s"
  let ?rq' = "rq(''symptoms'' \<mapsto> zs @ ws @ s # ys)"
  have g': "dict_get ?rq' ''symptoms'' [] = zs @ ws @ s # ys"
    by (simp add: dict_get_def)
  show "encode_user_symptoms ?rq' fc sev = encode_user_symptoms rq fc sev"
  proof (rule nth_equalityI)
    show "length (encode_user_symptoms ?rq' fc sev) = length (encode_user_symptoms rq fc sev)"
      by (simp add: length_encode_user_symptoms)
    fix j
    assume "j < length (encode_user_symptoms ?rq' fc sev)"
    then have j: "j < length fc"
      by (simp add: length_encode_user_symptoms)
    have "last_symptom_for fc (xs @ s # ys) j = last_symptom_for fc (zs @ ws @ s # ys) j"
      using a last_symptom_for_drop_earlier [of x s fc zs ws ys j] by simp
    then show "encode_user_symptoms ?rq' fc sev ! j = encode_user_symptoms rq fc sev ! j"
      using j by (simp add: nth_encode_user_symptoms g g')
  qed
qed

theorem last_write_wins_witness:
  "[''symptoms'' \<mapsto> [''Itching'', ''itching'', ''fatigue'']] ''symptoms''
     = Some ([''Itching''] @ ''itching'' # [''fatigue'']) \<and>
   enum_dict [''itching'', ''fatigue''] (clean_symptom ''itching'') = Some 0 \<and>
   clean_symptom ''fatigue'' \<noteq> clean_symptom ''itching'' \<and>
   encode_user_symptoms [''symptoms'' \<mapsto> [''Itching'', ''itching'', ''fatigue'']]
     [''itching'', ''fatigue''] [''Itching'' \<mapsto> 7, ''itching'' \<mapsto> 2] ! 0 = 2 \<and>
   encode_user_symptoms [''symptoms'' \<mapsto> [''itching'', ''fatigue'']]
     [''itching'', ''fatigue''] [''Itching'' \<mapsto> 7, ''itching'' \<mapsto> 2] =
   encode_user_symptoms [''symptoms'' \<mapsto> [''Itching'', ''itching'', ''fatigue'']]
     [''itching'', ''fatigue''] [''Itching'' \<mapsto> 7, ''itching'' \<mapsto> 2]"
proof -
  let ?rq = "[''symptoms'' \<mapsto> [''Itching'', ''itching'', ''fatigue'']]"
  have h1: "?rq ''symptoms'' = Some ([''Itching''] @ ''itching'' # [''fatigue''])"
    by simp
  have h2: "enum_dict [''itching'', ''fatigue''] (clean_symptom ''itching'') = Some 0"
    by code_simp
  have h3: "\<forall>y\<in>set [''fatigue'']. clean_symptom y \<noteq> clean_symptom ''itching''"
    by code_simp
  have c: "clean_symptom ''Itching'' = clean_symptom ''itching''"
    by code_simp
  have d: "dict_get [''Itching'' \<mapsto> 7, ''itching'' \<mapsto> (2::int)] ''itching'' 1 = 2"
    by (simp add: dict_get_def)
  note w = last_write_wins [where rq = ?rq and xs = "[''Itching'']" and s = "''itching''"
      and ys = "[''fatigue'']" and fc = "[''itching'', ''fatigue'']" and i = 0
      and sev = "[''Itching'' \<mapsto> 7, ''itching'' \<mapsto> 2]", OF h1 h2 h3]
  from conjunct1 [OF w] d
  have a: "encode_user_symptoms ?rq [''itching'', ''fatigue'']
             [''Itching'' \<mapsto> 7, ''itching'' \<mapsto> 2] ! 0 = 2"
    by simp
  from conjunct2 [OF w, rule_format, of "[]" "''Itching''" "[]"] c
  have b: "encode_user_symptoms [''symptoms'' \<mapsto> [''itching'', ''fatigue'']]
             [''itching'', ''fatigue''] [''Itching'' \<mapsto> 7, ''itching'' \<mapsto> 2] =
           encode_user_symptoms ?rq [''itching'', ''fatigue'']
             [''Itching'' \<mapsto> 7, ''itching'' \<mapsto> 2]"
    by simp
  from a b h1 h2 h3 show ?thesis by simp
qed

section \<open>Properties of the top-K ranker\<close>

lemma round_half_even_mono: "x \<le> y \<Longrightarrow> round_half_even x \<le> round_half_even y"
proof -
  assume xy: "x \<le> y"
  have fl: "\<lfloor>x\<rfloor> \<le> \<lfloor>y\<rfloor>" using xy by (rule floor_mono)
  show ?thesis
  proof (cases "\<lfloor>x\<rfloor> = \<lfloor>y\<rfloor>")
    case True
    then have "x - of_int \<lfloor>x\<rfloor> \<le> y - of_int \<lfloor>y\<rfloor>" using xy by simp
    with True show ?thesis
      by (auto simp: round_half_even_def Let_def)
  next
    case False
    with fl have "\<lfloor>x\<rfloor> + 1 \<le> \<lfloor>y\<rfloor>" by simp
    moreover have "round_half_even x \<le> \<lfloor>x\<rfloor> + 1"
      by (simp add: round_half_even_def Let_def)
    moreover have "\<lfloor>y\<rfloor> \<le> round_half_even y"
      by (simp add: round_half_even_def Let_def)
    ultimately show ?thesis by linarith
  qed
qed

lemma py_round_mono: "x \<le> y \<Longrightarrow> py_round x n \<le> py_round y n"
proof -
  assume "x \<le> y"
  then have "x * 10 ^ n \<le> y * 10 ^ n" by (simp add: mult_right_mono)
  then have "round_half_even (x * 10 ^ n) \<le> round_half_even (y * 10 ^ n)"
    by (rule round_half_even_mono)
  then have "(of_int (round_half_even (x * 10 ^ n)) :: rat) \<le> of_int (round_half_even (y * 10 ^ n))"
    by simp
  then show ?thesis
    unfolding py_round_def by (simp add: divide_right_mono)
qed

lemma sorted_by_probability_desc:
  "sorted_wrt (\<lambda>a b. snd b \<le> snd a) (sorted_by_probability pairs)"
proof -
  have "sorted (map (\<lambda>x. - snd x) (sorted_by_probability pairs))"
    unfolding sorted_by_probability_def by (rule sorted_sort_key)
  then show ?thesis
    by (simp add: sorted_wrt_map)
qed

lemma length_sorted_by_probability [simp]:
  "length (sorted_by_probability pairs) = length pairs"
  by (simp add: sorted_by_probability_def)

lemma set_sorted_by_probability [simp]:
  "set (sorted_by_probability pairs) = set pairs"
  by (simp add: sorted_by_probability_def)

lemma mset_sorted_by_probability [simp]:
  "mset (sorted_by_probability pairs) = mset pairs"
  by (simp add: sorted_by_probability_def)

lemma length_py_slice_to:
  "length (py_slice_to xs k) =
     (if 0 \<le> k then min (nat k) (length xs) else length xs - nat (- k))"
  by (auto simp: py_slice_to_def)


lemma set_py_slice_to: "set (py_slice_to xs k) \<subseteq> set xs"
  by (auto simp: py_slice_to_def dest: in_set_takeD)

lemma sorted_wrt_py_slice_to: "sorted_wrt R xs \<Longrightarrow> sorted_wrt R (py_slice_to xs k)"
  by (simp add: py_slice_to_def)


lemma predict_top_k_from_json_Inr:
  "predict_proba model (encode_user_symptoms rq fc sev) = Inr probabilities \<Longrightarrow>
   predict_top_k_from_json model rq fc sev k = Inr (rank_top_k (model_classes model) probabilities k)"
  by (simp add: predict_top_k_from_json_def)




text \<open>
  C7, as stated, fails for a negative \<open>k\<close>: with two classes and \<open>k = -1\<close> the output has
  length 1, which is more than \<open>min k n = -1\<close>.
\<close>

theorem rank_top_k_length_counterexample:
  "\<not> int (length (rank_top_k [''a'', ''b''] [6 / 10, 4 / 10] (- 1)))
      \<le> min (- 1) (int (length [''a'', ''b'']))"
  by code_simp

text \<open>
  C7, amended. For \<open>k \<ge> 0\<close> the output has length \<open>min k n\<close>, and for every integer \<open>k\<close> it
  has length at most the number of classes \<open>n\<close>; its probabilities are non-increasing from
  first to last; each prediction carries a class of the model with that class's probability
  rounded to 4 decimal digits.
\<close>

theorem rank_top_k_output:
  "(0 \<le> k \<longrightarrow>
      int (length (rank_top_k classes probabilities k)) =
        min k (int (length (zip classes probabilities)))) \<and>
   length (rank_top_k classes probabilities k) \<le> length (zip classes probabilities) \<and>
   sorted_wrt (\<lambda>x y. probability y \<le> probability x) (rank_top_k classes probabilities k) \<and>
   (\<forall>x\<in>set (rank_top_k classes probabilities k).
      \<exists>p. (disease x, p) \<in> set (zip classes probabilities) \<and> probability x = py_round p 4)"
proof (intro conjI impI ballI)
  assume "0 \<le> k"
  then show "int (length (rank_top_k classes probabilities k)) =
        min k (int (length (zip classes probabilities)))"
    by (simp add: rank_top_k_def length_py_slice_to)
next
  show "length (rank_top_k classes probabilities k) \<le> length (zip classes probabilities)"
    by (auto simp: rank_top_k_def length_py_slice_to)
next
  let ?s = "py_slice_to (sorted_by_probability (zip classes probabilities)) k"
  have "sorted_wrt (\<lambda>a b. snd b \<le> snd a) ?s"
    by (rule sorted_wrt_py_slice_to) (rule sorted_by_probability_desc)
  then have "sorted_wrt (\<lambda>a b. py_round (snd b) 4 \<le> py_round (snd a) 4) ?s"
    by (rule sorted_wrt_mono_rel [rotated]) (simp add: py_round_mono)
  then show "sorted_wrt (\<lambda>x y. probability y \<le> probability x) (rank_top_k classes probabilities k)"
    by (simp add: rank_top_k_def sorted_wrt_map case_prod_beta)
next
  fix x
  assume "x \<in> set (rank_top_k classes probabilities k)"
  then obtain d p where dp: "(d, p) \<in> set (py_slice_to (sorted_by_probability (zip classes probabilities)) k)"
    and x: "x = \<lparr>disease = d, probability = py_round p 4\<rparr>"
    by (auto simp: rank_top_k_def)
  from dp have "(d, p) \<in> set (zip classes probabilities)"
    using set_py_slice_to [of "sorted_by_probability (zip classes probabilities)" k] by auto
  with x show "\<exists>p. (disease x, p) \<in> set (zip classes probabilities) \<and> probability x = py_round p 4"
    by auto
qed

theorem rank_top_k_output_witness:
  "int (length (rank_top_k [''a'', ''b''] [4 / 10, 6 / 10] 1)) = 1 \<and>
   (\<exists>p. (''b'', p) \<in> set (zip [''a'', ''b''] [4 / 10, 6 / 10]) \<and> 6 / 10 = py_round p 4)"
proof -
  have r: "rank_top_k [''a'', ''b''] [4 / 10, 6 / 10] 1 = [\<lparr>disease = ''b'', probability = 6 / 10\<rparr>]"
    by code_simp
  note t = rank_top_k_output [of 1 "[''a'', ''b'']" "[4 / 10, 6 / 10]"]
  have a: "int (length (rank_top_k [''a'', ''b''] [4 / 10, 6 / 10] 1)) = 1"
    using t [THEN conjunct1] by simp
  have "\<lparr>disease = ''b'', probability = 6 / 10\<rparr> \<in> set (rank_top_k [''a'', ''b''] [4 / 10, 6 / 10] 1)"
    unfolding r by simp
  from t [THEN conjunct2, THEN conjunct2, THEN conjunct2, rule_format, OF this]
  have b: "\<exists>p. (''b'', p) \<in> set (zip [''a'', ''b''] [4 / 10, 6 / 10]) \<and> 6 / 10 = py_round p 4"
    by simp
  from a b show ?thesis by (rule conjI)
qed

section \<open>Idempotence of normalisation\<close>

lemma of_char_py_lower_char:
  "(of_char (py_lower_char c) :: nat) =
     (if (65 \<le> (of_char c :: nat) \<and> (of_char c :: nat) \<le> 90) \<or>
         (192 \<le> (of_char c :: nat) \<and> (of_char c :: nat) \<le> 222 \<and> (of_char c :: nat) \<noteq> 215)
      then of_char c + 32 else of_char c)"
  by (auto simp: py_lower_char_def Let_def)

lemma char_eq_code: "c = d \<longleftrightarrow> (of_char c :: nat) = of_char d"
  by simp

lemma py_isspace_lower [simp]: "py_isspace (py_lower_char c) = py_isspace c"
  unfolding py_isspace_def Let_def of_char_py_lower_char by auto

lemma py_lower_char_eq_space [simp]: "py_lower_char c = CHR '' '' \<longleftrightarrow> c = CHR '' ''"
  unfolding char_eq_code [of _ "CHR '' ''"] of_char_py_lower_char by auto

lemma py_lower_char_eq_underscore [simp]: "py_lower_char c = CHR ''_'' \<longleftrightarrow> c = CHR ''_''"
  unfolding char_eq_code [of _ "CHR ''_''"] of_char_py_lower_char by auto

lemma py_lower_char_idem [simp]: "py_lower_char (py_lower_char c) = py_lower_char c"
proof -
  have "(of_char (py_lower_char (py_lower_char c)) :: nat) = of_char (py_lower_char c)"
    unfolding of_char_py_lower_char [of "py_lower_char c"]
    unfolding of_char_py_lower_char [of c]
    by auto
  then show ?thesis by simp
qed

lemma py_isspace_space [simp]: "py_isspace CHR '' ''"
  by (simp add: py_isspace_def)

lemma py_replace_space: "py_replace '' '' ''_'' s = map space_to_underscore s"
proof (induction s)
  case Nil
  show ?case by (subst py_replace.simps) simp
next
  case (Cons c s)
  show ?case
    by (subst py_replace.simps) (simp add: Cons space_to_underscore_def)
qed

lemma py_replace_Nil: "old \<noteq> [] \<Longrightarrow> py_replace old new [] = []"
  by (subst py_replace.simps) simp

lemma py_replace_collapse: "py_replace ''__'' ''_'' s = collapse_underscores s"
proof (induction s rule: collapse_underscores.induct)
  case (1 a b cs)
  show ?case
    by (subst py_replace.simps) (use 1 in auto)
qed (subst py_replace.simps, simp add: py_replace_Nil)+

lemma collapse_Nil_iff [simp]: "collapse_underscores s = [] \<longleftrightarrow> s = []"
  by (induction s rule: collapse_underscores.induct) auto

lemma hd_collapse [simp]: "hd (collapse_underscores s) = hd s"
  by (induction s rule: collapse_underscores.induct) auto

lemma last_collapse [simp]: "last (collapse_underscores s) = last s"
  by (induction s rule: collapse_underscores.induct) auto

lemma set_collapse: "set (collapse_underscores s) \<subseteq> set s"
  by (induction s rule: collapse_underscores.induct) auto

lemma length_collapse: "length (collapse_underscores s) \<le> length s"
  by (induction s rule: collapse_underscores.induct) auto

lemma collapse_id_iff: "collapse_underscores s = s \<longleftrightarrow> \<not> has_double s"
proof (induction s rule: collapse_underscores.induct)
  case (1 a b cs)
  show ?case
  proof (cases "a = CHR ''_'' \<and> b = CHR ''_''")
    case True
    have "length (collapse_underscores cs) < length (CHR ''_'' # cs)"
      using length_collapse [of cs] by simp
    then have "collapse_underscores cs \<noteq> CHR ''_'' # cs"
      by (metis less_irrefl)
    with True show ?thesis by simp
  next
    case False
    then have c: "collapse_underscores (a # b # cs) = a # collapse_underscores (b # cs)"
      by (cases "a = CHR ''_''") simp_all
    from False have h: "has_double (a # b # cs) = has_double (b # cs)"
      by (cases "a = CHR ''_''") simp_all
    show ?thesis
      unfolding c h using 1(2) [OF False] by simp
  qed
qed simp_all

lemma has_double_Cons:
  "has_double (a # s) \<longleftrightarrow> (a = CHR ''_'' \<and> s \<noteq> [] \<and> hd s = CHR ''_'') \<or> has_double s"
  by (cases s) auto

lemma has_triple_Cons2:
  "has_triple (a # b # s) \<longleftrightarrow>
     (a = CHR ''_'' \<and> b = CHR ''_'' \<and> s \<noteq> [] \<and> hd s = CHR ''_'') \<or> has_triple (b # s)"
  by (cases s) auto

lemma has_triple_Cons_underscore:
  "has_triple (CHR ''_'' # s) \<longleftrightarrow>
     (s \<noteq> [] \<and> hd s = CHR ''_'' \<and> tl s \<noteq> [] \<and> hd (tl s) = CHR ''_'') \<or> has_triple s"
  by (cases s rule: has_double.cases) auto

lemma has_double_collapse: "has_double (collapse_underscores s) \<longleftrightarrow> has_triple s"
proof (induction s rule: collapse_underscores.induct)
  case (1 a b cs)
  show ?case
  proof (cases "a = CHR ''_'' \<and> b = CHR ''_''")
    case True
    with 1 show ?thesis
      by (auto simp: has_double_Cons has_triple_Cons2 has_triple_Cons_underscore)
  next
    case False
    with 1 show ?thesis
      by (auto simp: has_double_Cons has_triple_Cons2)
  qed
qed simp_all

lemma has_triple_clean:
  "has_triple (map space_to_underscore (map py_lower_char s)) \<longleftrightarrow> long_separator_run s"
  by (induction s rule: long_separator_run.induct)
     (auto simp: space_to_underscore_def is_separator_def)

lemma last_dropWhile: "dropWhile P xs \<noteq> [] \<Longrightarrow> last (dropWhile P xs) = last xs"
  by (induction xs) (auto split: if_splits)

lemma py_strip_ends:
  "py_strip s = [] \<or> (\<not> py_isspace (hd (py_strip s)) \<and> \<not> py_isspace (last (py_strip s)))"
proof (cases "py_strip s = []")
  case True
  then show ?thesis by simp
next
  case False
  let ?d = "dropWhile py_isspace s"
  let ?e = "dropWhile py_isspace (rev ?d)"
  from False have e: "?e \<noteq> []" by (simp add: py_strip_def)
  have d: "?d \<noteq> []"
  proof
    assume "?d = []"
    then have "?e = []" by (simp only: rev.simps dropWhile.simps)
    with e show False by blast
  qed
  have "\<not> py_isspace (hd ?e)" using e by (rule hd_dropWhile)
  then have l: "\<not> py_isspace (last (py_strip s))"
    using e by (simp add: py_strip_def last_rev)
  have "last ?e = last (rev ?d)" using e by (rule last_dropWhile)
  also have "\<dots> = hd ?d" using d by (simp add: last_rev)
  finally have "hd (py_strip s) = hd ?d"
    using e by (simp add: py_strip_def hd_rev)
  moreover have "\<not> py_isspace (hd ?d)" using d by (rule hd_dropWhile)
  ultimately show ?thesis using l by simp
qed

lemma py_strip_id:
  assumes "s = [] \<or> (\<not> py_isspace (hd s) \<and> \<not> py_isspace (last s))"
  shows "py_strip s = s"
proof (cases "s = []")
  case True
  then show ?thesis by (simp add: py_strip_def)
next
  case False
  with assms have h: "\<not> py_isspace (hd s)" and l: "\<not> py_isspace (last s)" by auto
  have "dropWhile py_isspace s = s"
    using h False by (cases s) auto
  moreover have "dropWhile py_isspace (rev s) = rev s"
  proof -
    from False have "rev s \<noteq> []" by simp
    then obtain x xs where r: "rev s = x # xs" by (cases "rev s") auto
    have "x = last s" using r False hd_rev [of s] by simp
    with l have "dropWhile py_isspace (x # xs) = x # xs" by simp
    then show ?thesis unfolding r .
  qed
  ultimately show ?thesis by (simp add: py_strip_def)
qed

lemma normalize_symptom_Str:
  "normalize_symptom (Str s) =
     collapse_underscores (map space_to_underscore (map py_lower_char (py_strip s)))"
  by (simp add: normalize_symptom_def py_replace_space py_replace_collapse py_lower_def)

lemma not_space_clean_char:
  "\<not> py_isspace c \<Longrightarrow> \<not> py_isspace (space_to_underscore (py_lower_char c))"
proof -
  assume n: "\<not> py_isspace c"
  then have "c \<noteq> CHR '' ''" using py_isspace_space by auto
  then have "space_to_underscore (py_lower_char c) = py_lower_char c"
    by (simp add: space_to_underscore_def)
  with n show ?thesis by simp
qed

lemma clean_char_fixed:
  "py_lower_char (space_to_underscore (py_lower_char c)) = space_to_underscore (py_lower_char c) \<and>
   space_to_underscore (py_lower_char c) \<noteq> CHR '' ''"
proof (cases "c = CHR '' ''")
  case True
  have "py_lower_char CHR ''_'' = CHR ''_''" by simp
  with True show ?thesis by (simp add: space_to_underscore_def)
next
  case False
  then show ?thesis by (simp add: space_to_underscore_def)
qed

lemma normalize_cleaned:
  assumes "t = [] \<or> (\<not> py_isspace (hd t) \<and> \<not> py_isspace (last t))"
  shows "normalize_symptom
           (Str (collapse_underscores (map space_to_underscore (map py_lower_char t)))) =
         collapse_underscores
           (collapse_underscores (map space_to_underscore (map py_lower_char t)))"
proof -
  let ?r = "map space_to_underscore (map py_lower_char t)"
  let ?u = "collapse_underscores ?r"
  have ends: "?u = [] \<or> (\<not> py_isspace (hd ?u) \<and> \<not> py_isspace (last ?u))"
  proof (cases "t = []")
    case True
    then show ?thesis by simp
  next
    case False
    with assms have "\<not> py_isspace (hd t)" and "\<not> py_isspace (last t)" by auto
    then have "\<not> py_isspace (hd ?r)" and "\<not> py_isspace (last ?r)"
      using False by (simp_all add: hd_map last_map not_space_clean_char)
    then show ?thesis by simp
  qed
  have strip: "py_strip ?u = ?u"
    using ends by (rule py_strip_id)
  have chars: "py_lower_char c = c \<and> c \<noteq> CHR '' ''" if "c \<in> set ?u" for c
  proof -
    from that set_collapse [of ?r] have "c \<in> set ?r" by (rule subsetD [rotated])
    then have "c \<in> (\<lambda>c'. space_to_underscore (py_lower_char c')) ` set t"
      by (simp add: image_image)
    then obtain c' where c': "c = space_to_underscore (py_lower_char c')" by (rule imageE)
    show ?thesis unfolding c' by (rule clean_char_fixed)
  qed
  have lower: "map py_lower_char ?u = ?u"
  proof (rule map_idI)
    fix c
    assume "c \<in> set ?u"
    from chars [OF this] show "py_lower_char c = c" by (rule conjunct1)
  qed
  have sp: "map space_to_underscore ?u = ?u"
  proof (rule map_idI)
    fix c
    assume "c \<in> set ?u"
    from chars [OF this] have "c \<noteq> CHR '' ''" by (rule conjunct2)
    then show "space_to_underscore c = c" by (simp add: space_to_underscore_def)
  qed
  show ?thesis
    unfolding normalize_symptom_Str strip lower sp ..
qed

text \<open>
  C8, as stated, fails: \<open>replace("__", "_")\<close> makes one pass from the left, so a run of three
  underscores becomes two, and a second normalisation shortens it again.
\<close>

theorem normalize_not_idempotent_counterexample:
  "normalize_symptom (Str (normalize_symptom (Str ''a___b''))) \<noteq> normalize_symptom (Str ''a___b'')"
  by code_simp

text \<open>
  C8, amended. Normalising twice gives the same as normalising once exactly for the strings
  that, once trimmed, have no three or more spaces or underscores in a row.
\<close>

theorem normalize_idempotent_iff:
  "normalize_symptom (Str (normalize_symptom (Str s))) = normalize_symptom (Str s) \<longleftrightarrow>
   \<not> long_separator_run (py_strip s)"
proof -
  let ?t = "py_strip s"
  let ?r = "map space_to_underscore (map py_lower_char ?t)"
  let ?u = "collapse_underscores ?r"
  have "normalize_symptom (Str (normalize_symptom (Str s))) = collapse_underscores ?u"
    unfolding normalize_symptom_Str [of s] using py_strip_ends [of s] by (rule normalize_cleaned)
  then have "normalize_symptom (Str (normalize_symptom (Str s))) = normalize_symptom (Str s) \<longleftrightarrow>
      collapse_underscores ?u = ?u"
    by (simp add: normalize_symptom_Str [of s])
  also have "\<dots> \<longleftrightarrow> \<not> has_double ?u" by (rule collapse_id_iff)
  also have "\<dots> \<longleftrightarrow> \<not> has_triple ?r" by (simp only: has_double_collapse)
  also have "\<dots> \<longleftrightarrow> \<not> long_separator_run ?t" by (simp only: has_triple_clean)
  finally show ?thesis .
qed

theorem normalize_idempotent_iff_witness:
  "\<not> long_separator_run (py_strip ''  Skin  Rash '') \<and>
   normalize_symptom (Str (normalize_symptom (Str ''  Skin  Rash ''))) =
   normalize_symptom (Str ''  Skin  Rash '')"
proof -
  have h: "\<not> long_separator_run (py_strip ''  Skin  Rash '')"
    by code_simp
  with normalize_idempotent_iff [of "''  Skin  Rash ''"] show ?thesis by simp
qed

section \<open>Properties of the contribution analysis\<close>

lemma set_update_subset: "set (AList.update k v al) \<subseteq> insert (k, v) (set al)"
  by (induction al) auto

lemma symptom_scores_entries:
  "symptom_scores model sev f2i bv d_idx bp syms acc = Inr res \<Longrightarrow>
   (s, sc) \<in> set res \<Longrightarrow>
   (s, sc) \<in> set acc \<or>
   (s \<in> set syms \<and> (\<exists>i. f2i s = Some i \<and> leave_one_out model sev bv d_idx bp i s = Inr sc))"
proof (induction syms arbitrary: acc)
  case Nil
  then show ?case by simp
next
  case (Cons x syms)
  show ?case
  proof (cases "f2i x")
    case None
    with Cons.prems have "symptom_scores model sev f2i bv d_idx bp syms acc = Inr res"
      by simp
    from Cons.IH [OF this Cons.prems(2)] show ?thesis by auto
  next
    case (Some i)
    with Cons.prems(1) obtain v where v: "leave_one_out model sev bv d_idx bp i x = Inr v"
      and r: "symptom_scores model sev f2i bv d_idx bp syms (AList.update x v acc) = Inr res"
      by (auto split: sum.splits)
    from Cons.IH [OF r Cons.prems(2)]
    have "(s, sc) \<in> set (AList.update x v acc) \<or>
      (s \<in> set syms \<and> (\<exists>i. f2i s = Some i \<and> leave_one_out model sev bv d_idx bp i s = Inr sc))" .
    then show ?thesis
    proof
      assume "(s, sc) \<in> set (AList.update x v acc)"
      then have "(s, sc) = (x, v) \<or> (s, sc) \<in> set acc"
        using set_update_subset [of x v acc] by auto
      with Some v show ?thesis by auto
    next
      assume "s \<in> set syms \<and> (\<exists>i. f2i s = Some i \<and> leave_one_out model sev bv d_idx bp i s = Inr sc)"
      then show ?thesis by auto
    qed
  qed
qed

lemma symptom_scores_keys:
  "symptom_scores model sev f2i bv d_idx bp syms acc = Inr res \<Longrightarrow>
   fst ` set res = fst ` set acc \<union> {s \<in> set syms. f2i s \<noteq> None}"
proof (induction syms arbitrary: acc)
  case Nil
  then show ?case by simp
next
  case (Cons x syms)
  show ?case
  proof (cases "f2i x")
    case None
    with Cons.prems have "symptom_scores model sev f2i bv d_idx bp syms acc = Inr res"
      by simp
    from Cons.IH [OF this] None show ?thesis by auto
  next
    case (Some i)
    with Cons.prems(1) obtain v where
      r: "symptom_scores model sev f2i bv d_idx bp syms (AList.update x v acc) = Inr res"
      by (auto split: sum.splits)
    from Cons.IH [OF r] Some show ?thesis
      by (auto simp: AList.dom_update)
  qed
qed

lemma raw_impact_entries:
  "raw_impact model sev d2i f2i bv bps selected preds acc = Inr res \<Longrightarrow>
   (d, scores) \<in> set res \<Longrightarrow>
   (d, scores) \<in> set acc \<or>
   (d \<in> disease ` set preds \<and>
    (\<exists>d_idx bp. d2i d = Some d_idx \<and> py_index bps d_idx = Inr bp \<and>
       symptom_scores model sev f2i bv d_idx bp selected [] = Inr scores))"
proof (induction preds arbitrary: acc)
  case Nil
  then show ?case by simp
next
  case (Cons p preds)
  from Cons.prems(1) obtain d_idx bp ds where
    a: "d2i (disease p) = Some d_idx" and b: "py_index bps d_idx = Inr bp"
    and c: "symptom_scores model sev f2i bv d_idx bp selected [] = Inr ds"
    and r: "raw_impact model sev d2i f2i bv bps selected preds
              (AList.update (disease p) ds acc) = Inr res"
    by (auto split: option.splits sum.splits)
  from Cons.IH [OF r Cons.prems(2)]
  have "(d, scores) \<in> set (AList.update (disease p) ds acc) \<or>
   (d \<in> disease ` set preds \<and>
    (\<exists>d_idx bp. d2i d = Some d_idx \<and> py_index bps d_idx = Inr bp \<and>
       symptom_scores model sev f2i bv d_idx bp selected [] = Inr scores))" .
  then show ?case
  proof
    assume "(d, scores) \<in> set (AList.update (disease p) ds acc)"
    then have "(d, scores) = (disease p, ds) \<or> (d, scores) \<in> set acc"
      using set_update_subset [of "disease p" ds acc] by auto
    with a b c show ?thesis by auto
  next
    assume "d \<in> disease ` set preds \<and>
    (\<exists>d_idx bp. d2i d = Some d_idx \<and> py_index bps d_idx = Inr bp \<and>
       symptom_scores model sev f2i bv d_idx bp selected [] = Inr scores)"
    then show ?thesis by auto
  qed
qed

lemma raw_impact_keys:
  "raw_impact model sev d2i f2i bv bps selected preds acc = Inr res \<Longrightarrow>
   fst ` set res = fst ` set acc \<union> disease ` set preds"
proof (induction preds arbitrary: acc)
  case Nil
  then show ?case by simp
next
  case (Cons p preds)
  from Cons.prems(1) obtain ds where
    r: "raw_impact model sev d2i f2i bv bps selected preds
              (AList.update (disease p) ds acc) = Inr res"
    by (auto split: option.splits sum.splits)
  from Cons.IH [OF r] show ?case
    by (auto simp: AList.dom_update)
qed

lemma round_half_even_of_int [simp]: "round_half_even (of_int n) = n"
  by (simp add: round_half_even_def)

lemma py_round_of_int: "py_round (of_int m) n = of_int m"
proof -
  have "(of_int m :: rat) * 10 ^ n = of_int (m * 10 ^ n)" by simp
  then have "round_half_even (of_int m * 10 ^ n) = m * 10 ^ n"
    by (simp only: round_half_even_of_int)
  then show ?thesis by (simp add: py_round_def)
qed

lemma py_round_zero [simp]: "py_round 0 n = 0"
  using py_round_of_int [of 0 n] by simp

lemma py_round_hundred [simp]: "py_round 100 n = 100"
  using py_round_of_int [of 100 n] by simp

lemma py_round_nonneg: "0 \<le> x \<Longrightarrow> 0 \<le> py_round x n"
  using py_round_mono [of 0 x n] by simp

lemma py_round_le_hundred: "x \<le> 100 \<Longrightarrow> py_round x n \<le> 100"
  using py_round_mono [of x 100 n] by simp

lemma py_index_Inr: "py_index xs i = Inr v \<longleftrightarrow> i < length xs \<and> v = xs ! i"
  by (auto simp: py_index_def)

lemma dict_get_nonneg:
  "\<forall>s w. sev s = Some w \<longrightarrow> 0 \<le> w \<Longrightarrow> 0 \<le> dict_get sev s (1::int)"
  by (auto simp: dict_get_def split: option.splits)

lemma leave_one_out_Inr:
  "leave_one_out model sev bv d_idx bp i s = Inr sc \<Longrightarrow>
   \<exists>new_probs. predict_proba model (bv[i := 0]) = Inr new_probs \<and> d_idx < length new_probs \<and>
     sc = max 0 (bp - new_probs ! d_idx) * of_int (dict_get sev s 1)"
  by (auto simp: leave_one_out_def Let_def py_index_Inr split: sum.splits)

lemma final_analysis_entry:
  "(d, es) \<in> set (final_analysis rs) \<Longrightarrow> (s, e) \<in> set es \<Longrightarrow>
   \<exists>scores sc. (d, scores) \<in> set rs \<and> (s, sc) \<in> set scores \<and>
     e = final_entry (highest_impact rs) sc"
  by (fastforce simp: final_analysis_def Let_def)

lemma final_analysis_entryI:
  "(d, scores) \<in> set rs \<Longrightarrow> (s, sc) \<in> set scores \<Longrightarrow>
   \<exists>es. (d, es) \<in> set (final_analysis rs) \<and> (s, final_entry (highest_impact rs) sc) \<in> set es"
  by (force simp: final_analysis_def Let_def)

lemma in_all_scores:
  "sc \<in> set (all_scores rs) \<longleftrightarrow> (\<exists>d scores s. (d, scores) \<in> set rs \<and> (s, sc) \<in> set scores)"
  by (force simp: all_scores_def)

lemma highest_impact_Max:
  "all_scores rs \<noteq> [] \<Longrightarrow> highest_impact rs = Max (set (all_scores rs))"
proof (cases "all_scores rs")
  case Nil
  moreover assume "all_scores rs \<noteq> []"
  ultimately show ?thesis by simp
next
  case (Cons x xs)
  have "Max (set (x # xs)) = fold max xs x" by (rule Max.set_eq_fold)
  with Cons show ?thesis by (simp add: highest_impact_def)
qed

lemma highest_impact_empty: "all_scores rs = [] \<Longrightarrow> highest_impact rs = 1"
  by (simp add: highest_impact_def)

lemma calculate_symptom_contributions_Inr:
  assumes "calculate_symptom_contributions model rq preds fc sev = Inr out"
  shows "\<exists>bps rs. predict_proba model (encode_user_symptoms rq fc sev) = Inr bps \<and>
     raw_impact model sev (enum_dict (model_classes model)) (enum_dict fc)
       (encode_user_symptoms rq fc sev) bps (dict_get rq ''symptoms'' []) preds [] = Inr rs \<and>
     out = final_analysis rs"
  using assms by (auto simp: calculate_symptom_contributions_def Let_def split: sum.splits)

lemma scaled_final_entry_le:
  assumes "sc \<in> set (all_scores rs)"
  shows "scaled (final_entry (highest_impact rs) sc) \<le> 100"
proof (cases "0 < highest_impact rs")
  case True
  from assms have ne: "all_scores rs \<noteq> []" by auto
  have "sc \<le> Max (set (all_scores rs))" using assms by simp
  then have "sc \<le> highest_impact rs" by (simp add: highest_impact_Max [OF ne])
  with True have "sc / highest_impact rs \<le> 1" by (simp add: divide_le_eq_1)
  then have "sc / highest_impact rs * 100 \<le> 1 * 100"
    by (rule mult_right_mono) simp
  then have "sc / highest_impact rs * 100 \<le> 100" by (simp only: mult_1)
  then have "py_round (sc / highest_impact rs * 100) 2 \<le> 100" by (rule py_round_le_hundred)
  with True show ?thesis by (simp add: final_entry_def)
next
  case False
  then show ?thesis by (simp add: final_entry_def)
qed

lemma scaled_final_entry_ge:
  assumes "0 \<le> sc"
  shows "0 \<le> scaled (final_entry h sc)"
proof (cases "0 < h")
  case True
  with assms have "0 \<le> sc / h * 100" by simp
  then have "0 \<le> py_round (sc / h * 100) 2" by (rule py_round_nonneg)
  with True show ?thesis by (simp add: final_entry_def)
next
  case False
  then show ?thesis by (simp add: final_entry_def)
qed

lemma scaled_final_entry_max:
  assumes "0 < h"
  shows "scaled (final_entry h h) = 100"
  using assms by (simp add: final_entry_def)

text \<open>
  C3, as stated, fails in its second half: nothing in the code looks at the sign of a
  severity weight. With the table \<open>{a: 1, b: -1}\<close>, a baseline probability of 0.9 and 0.4
  after either removal, the symptom \<open>b\<close> scores \<open>0.5 * -1\<close> and its reported \<open>raw\<close> is
  \<open>-0.5\<close>.
\<close>

theorem raw_contribution_negative_counterexample:
  "calculate_symptom_contributions
     \<lparr>model_classes = [''D''],
      predict_proba = (\<lambda>v. if v = [1, - 1] then Inr [9 / 10] else Inr [4 / 10])\<rparr>
     [''symptoms'' \<mapsto> [''a'', ''b'']] [\<lparr>disease = ''D'', probability = 9 / 10\<rparr>]
     [''a'', ''b''] [''a'' \<mapsto> 1, ''b'' \<mapsto> - 1] =
   Inr [(''D'', [(''a'', \<lparr>raw = 1 / 2, scaled = 100\<rparr>),
                 (''b'', \<lparr>raw = - (1 / 2), scaled = - 100\<rparr>)])] \<and>
   raw \<lparr>raw = - (1 / 2), scaled = - 100\<rparr> < 0"
  by code_simp

text \<open>
  C3, amended. Every entry of the result, for a disease \<open>d\<close> and a symptom \<open>s\<close>, comes from
  one leave-one-out experiment: with \<open>p0\<close> the probability of \<open>d\<close> on the baseline vector
  and \<open>p1\<close> its probability on the baseline vector with the dimension of \<open>s\<close> set to 0,
  the score is \<open>max 0 (p0 - p1)\<close> times the severity weight of \<open>s\<close> (1 when the table has
  no entry), and the reported \<open>raw\<close> is that score rounded to 6 decimal digits. It is
  exactly 0 when the removal did not lower the probability, whatever the weight, and it is
  not negative when the weight of \<open>s\<close> is not negative.
\<close>

theorem raw_contribution:
  assumes "calculate_symptom_contributions model rq preds fc sev = Inr out"
    and "(d, entries) \<in> set out" and "(s, e) \<in> set entries"
  shows "\<exists>s_idx p0 p1. enum_dict fc s = Some s_idx \<and>
      class_probability model (encode_user_symptoms rq fc sev) d = Some p0 \<and>
      class_probability model ((encode_user_symptoms rq fc sev)[s_idx := 0]) d = Some p1 \<and>
      raw e = py_round (max 0 (p0 - p1) * of_int (dict_get sev s 1)) 6 \<and>
      (p0 \<le> p1 \<longrightarrow> raw e = 0) \<and>
      (0 \<le> dict_get sev s 1 \<longrightarrow> 0 \<le> raw e)"
proof -
  let ?bv = "encode_user_symptoms rq fc sev"
  from calculate_symptom_contributions_Inr [OF assms(1)] obtain bps rs where
    bps: "predict_proba model ?bv = Inr bps"
    and rs: "raw_impact model sev (enum_dict (model_classes model)) (enum_dict fc)
       ?bv bps (dict_get rq ''symptoms'' []) preds [] = Inr rs"
    and out: "out = final_analysis rs"
    by blast
  from final_analysis_entry [OF assms(2) [unfolded out] assms(3)] obtain scores sc where
    ds: "(d, scores) \<in> set rs" and ss: "(s, sc) \<in> set scores"
    and e: "e = final_entry (highest_impact rs) sc"
    by blast
  from raw_impact_entries [OF rs ds] obtain d_idx bp where
    di: "enum_dict (model_classes model) d = Some d_idx"
    and bp: "py_index bps d_idx = Inr bp"
    and sy: "symptom_scores model sev (enum_dict fc) ?bv d_idx bp (dict_get rq ''symptoms'' []) [] = Inr scores"
    by auto
  from symptom_scores_entries [OF sy ss] obtain i where
    i: "enum_dict fc s = Some i"
    and lo: "leave_one_out model sev ?bv d_idx bp i s = Inr sc"
    by auto
  from leave_one_out_Inr [OF lo] obtain new_probs where
    np: "predict_proba model (?bv[i := 0]) = Inr new_probs"
    and dl: "d_idx < length new_probs"
    and sc: "sc = max 0 (bp - new_probs ! d_idx) * of_int (dict_get sev s 1)"
    by blast
  from bp have bl: "d_idx < length bps" and bpv: "bp = bps ! d_idx"
    by (simp_all add: py_index_Inr)
  have p0: "class_probability model ?bv d = Some bp"
    by (simp add: class_probability_def bps di bl bpv)
  have p1: "class_probability model (?bv[i := 0]) d = Some (new_probs ! d_idx)"
    by (simp add: class_probability_def np di dl)
  have r: "raw e = py_round (max 0 (bp - new_probs ! d_idx) * of_int (dict_get sev s 1)) 6"
    by (simp add: e final_entry_def sc)
  have nn: "0 \<le> dict_get sev s 1 \<longrightarrow> 0 \<le> raw e"
  proof
    assume "0 \<le> dict_get sev s 1"
    then have "0 \<le> max 0 (bp - new_probs ! d_idx) * of_int (dict_get sev s 1)"
      by simp
    then show "0 \<le> raw e"
      unfolding r by (rule py_round_nonneg)
  qed
  have z: "bp \<le> new_probs ! d_idx \<longrightarrow> raw e = 0"
    unfolding r by (simp add: max_def)
  from i p0 p1 r z nn show ?thesis by blast
qed

theorem raw_contribution_witness:
  "calculate_symptom_contributions demo_classifier
     [''symptoms'' \<mapsto> [''itching'', ''skin_rash'']]
     [\<lparr>disease = ''FungalInfection'', probability = 95 / 100\<rparr>]
     [''itching'', ''skin_rash'', ''fatigue'']
     [''itching'' \<mapsto> 1, ''skin_rash'' \<mapsto> 3, ''fatigue'' \<mapsto> 4] =
   Inr [(''FungalInfection'',
         [(''itching'', \<lparr>raw = 1 / 20, scaled = 667 / 100\<rparr>),
          (''skin_rash'', \<lparr>raw = 3 / 4, scaled = 100\<rparr>)])] \<and>
   (\<exists>s_idx p0 p1.
      enum_dict [''itching'', ''skin_rash'', ''fatigue''] ''skin_rash'' = Some s_idx \<and>
      class_probability demo_classifier
        (encode_user_symptoms [''symptoms'' \<mapsto> [''itching'', ''skin_rash'']]
           [''itching'', ''skin_rash'', ''fatigue'']
           [''itching'' \<mapsto> 1, ''skin_rash'' \<mapsto> 3, ''fatigue'' \<mapsto> 4])
        ''FungalInfection'' = Some p0 \<and>
      class_probability demo_classifier
        ((encode_user_symptoms [''symptoms'' \<mapsto> [''itching'', ''skin_rash'']]
           [''itching'', ''skin_rash'', ''fatigue'']
           [''itching'' \<mapsto> 1, ''skin_rash'' \<mapsto> 3, ''fatigue'' \<mapsto> 4])[s_idx := 0])
        ''FungalInfection'' = Some p1 \<and>
      raw \<lparr>raw = 3 / 4, scaled = 100\<rparr> =
        py_round (max 0 (p0 - p1) *
          of_int (dict_get [''itching'' \<mapsto> 1, ''skin_rash'' \<mapsto> 3, ''fatigue'' \<mapsto> 4]
            ''skin_rash'' 1)) 6 \<and>
      (p0 \<le> p1 \<longrightarrow> raw \<lparr>raw = 3 / 4, scaled = 100\<rparr> = 0) \<and>
      (0 \<le> dict_get [''itching'' \<mapsto> 1, ''skin_rash'' \<mapsto> 3, ''fatigue'' \<mapsto> (4::int)]
              ''skin_rash'' 1 \<longrightarrow>
         0 \<le> raw \<lparr>raw = 3 / 4, scaled = 100\<rparr>)) \<and>
   0 \<le> dict_get [''itching'' \<mapsto> 1, ''skin_rash'' \<mapsto> 3, ''fatigue'' \<mapsto> (4::int)] ''skin_rash'' 1 \<and>
   0 \<le> raw \<lparr>raw = 3 / 4, scaled = 100\<rparr>"
proof -
  let ?sev = "[''itching'' \<mapsto> 1, ''skin_rash'' \<mapsto> 3, ''fatigue'' \<mapsto> (4::int)]"
  let ?es = "[(''itching'', \<lparr>raw = 1 / 20, scaled = 667 / 100\<rparr>),
          (''skin_rash'', \<lparr>raw = 3 / 4, scaled = 100\<rparr>)]"
  have h1: "calculate_symptom_contributions demo_classifier
     [''symptoms'' \<mapsto> [''itching'', ''skin_rash'']]
     [\<lparr>disease = ''FungalInfection'', probability = 95 / 100\<rparr>]
     [''itching'', ''skin_rash'', ''fatigue''] ?sev =
   Inr [(''FungalInfection'', ?es)]"
    by code_simp
  have h2: "(''FungalInfection'', ?es) \<in> set [(''FungalInfection'', ?es)]"
    by simp
  have h3: "(''skin_rash'', \<lparr>raw = 3 / 4, scaled = 100\<rparr>) \<in> set ?es"
    by simp
  have h4: "0 \<le> dict_get ?sev ''skin_rash'' 1"
    by (simp add: dict_get_def)
  note t = raw_contribution [OF h1 h2 h3]
  from t h4 have n: "0 \<le> raw \<lparr>raw = 3 / 4, scaled = 100\<rparr>"
    by blast
  show ?thesis
    by (rule conjI [OF h1 conjI [OF t conjI [OF h4 n]]])
qed

lemma py_round_pos_imp: "0 < py_round x n \<Longrightarrow> 0 < x"
proof (rule ccontr)
  assume p: "0 < py_round x n" and "\<not> 0 < x"
  then have "x \<le> 0" by simp
  then have "py_round x n \<le> py_round 0 n" by (rule py_round_mono)
  with p show False by simp
qed

lemma scaled_hundred_exists:
  assumes "\<exists>sc\<in>set (all_scores rs). 0 < sc"
  shows "\<exists>d es s e. (d, es) \<in> set (final_analysis rs) \<and> (s, e) \<in> set es \<and> scaled e = 100"
proof -
  from assms obtain sc where m: "sc \<in> set (all_scores rs)" and p: "0 < sc" by blast
  from m have ne: "all_scores rs \<noteq> []" by auto
  have h: "highest_impact rs = Max (set (all_scores rs))" using ne by (rule highest_impact_Max)
  have "sc \<le> Max (set (all_scores rs))" using m by simp
  with p h have hp: "0 < highest_impact rs" by simp
  have "Max (set (all_scores rs)) \<in> set (all_scores rs)"
    using ne by (intro Max_in) simp_all
  then have "highest_impact rs \<in> set (all_scores rs)" by (simp only: h)
  then obtain d scores s where ds: "(d, scores) \<in> set rs"
    and ss: "(s, highest_impact rs) \<in> set scores"
    unfolding in_all_scores by blast
  from final_analysis_entryI [OF ds ss] obtain es where
    "(d, es) \<in> set (final_analysis rs)"
    and "(s, final_entry (highest_impact rs) (highest_impact rs)) \<in> set es"
    by blast
  moreover have "scaled (final_entry (highest_impact rs) (highest_impact rs)) = 100"
    using hp by (rule scaled_final_entry_max)
  ultimately show ?thesis by blast
qed

lemma raw_impact_scores_nonneg:
  assumes "raw_impact model sev d2i f2i bv bps selected preds [] = Inr rs"
    and "\<forall>s w. sev s = Some w \<longrightarrow> 0 \<le> w"
  shows "\<forall>sc\<in>set (all_scores rs). 0 \<le> sc"
proof
  fix sc
  assume "sc \<in> set (all_scores rs)"
  then obtain d scores s where ds: "(d, scores) \<in> set rs" and ss: "(s, sc) \<in> set scores"
    unfolding in_all_scores by blast
  from raw_impact_entries [OF assms(1) ds] obtain d_idx bp where
    "symptom_scores model sev f2i bv d_idx bp selected [] = Inr scores"
    by auto
  from symptom_scores_entries [OF this ss] obtain i where
    "leave_one_out model sev bv d_idx bp i s = Inr sc"
    by auto
  from leave_one_out_Inr [OF this] obtain new_probs where
    sc: "sc = max 0 (bp - new_probs ! d_idx) * of_int (dict_get sev s 1)"
    by blast
  have "0 \<le> dict_get sev s 1" using assms(2) by (rule dict_get_nonneg)
  then show "0 \<le> sc" unfolding sc by simp
qed

lemma contributions_scaled_in_range:
  assumes "calculate_symptom_contributions model rq preds fc sev = Inr out"
    and "\<forall>s w. sev s = Some w \<longrightarrow> 0 \<le> w"
    and "(d, es) \<in> set out" and "(s, e) \<in> set es"
  shows "0 \<le> scaled e \<and> scaled e \<le> 100"
proof -
  from calculate_symptom_contributions_Inr [OF assms(1)] obtain bps rs where
    rs: "raw_impact model sev (enum_dict (model_classes model)) (enum_dict fc)
       (encode_user_symptoms rq fc sev) bps (dict_get rq ''symptoms'' []) preds [] = Inr rs"
    and out: "out = final_analysis rs"
    by blast
  from final_analysis_entry [OF assms(3) [unfolded out] assms(4)] obtain scores sc where
    ds: "(d, scores) \<in> set rs" and ss: "(s, sc) \<in> set scores"
    and e: "e = final_entry (highest_impact rs) sc"
    by blast
  from ds ss have m: "sc \<in> set (all_scores rs)"
    unfolding in_all_scores by blast
  with raw_impact_scores_nonneg [OF rs assms(2)] have "0 \<le> sc" by blast
  then have "0 \<le> scaled e" unfolding e by (rule scaled_final_entry_ge)
  moreover have "scaled e \<le> 100" unfolding e using m by (rule scaled_final_entry_le)
  ultimately show ?thesis by (rule conjI)
qed

text \<open>
  C4, as stated, fails in its lower bound: a negative severity weight gives a negative raw
  score, and the division by the positive maximum keeps its sign. With the table
  \<open>{a: 1, b: -1}\<close> the raw scores are \<open>0.5\<close> and \<open>-0.5\<close>, the maximum is \<open>0.5\<close>, and the
  entry of \<open>b\<close> has \<open>scaled = -100\<close>.
\<close>

theorem rescaling_negative_counterexample:
  "calculate_symptom_contributions
     \<lparr>model_classes = [''D''],
      predict_proba = (\<lambda>v. if v = [1, - 1] then Inr [9 / 10] else Inr [4 / 10])\<rparr>
     [''symptoms'' \<mapsto> [''a'', ''b'']] [\<lparr>disease = ''D'', probability = 9 / 10\<rparr>]
     [''a'', ''b''] [''a'' \<mapsto> 1, ''b'' \<mapsto> - 1] =
   Inr [(''D'', [(''a'', \<lparr>raw = 1 / 2, scaled = 100\<rparr>),
                 (''b'', \<lparr>raw = - (1 / 2), scaled = - 100\<rparr>)])] \<and>
   highest_impact [(''D'', [(''a'', 1 / 2), (''b'', - (1 / 2))])] = 1 / 2 \<and>
   \<not> 0 \<le> scaled \<lparr>raw = - (1 / 2), scaled = - 100\<rparr>"
  by code_simp

text \<open>
  C4, amended. The rescaling uses one divisor for the whole result set: 1 when there is no
  score, otherwise the maximum of all scores of all diseases. An entry's \<open>scaled\<close> is the
  score divided by it, times 100, rounded to 2 digits, and 0 when the divisor is not
  positive. So every \<open>scaled\<close> is at most 100; the \<open>scaled\<close> of a score that is not negative
  is at least 0, so every \<open>scaled\<close> is in the range 0 to 100 when no raw score is negative;
  and when some raw score is positive, before or after its rounding to 6 digits, some entry
  has \<open>scaled = 100\<close>.
\<close>

theorem rescaling:
  "(all_scores rs = [] \<longrightarrow> highest_impact rs = 1) \<and>
   (all_scores rs \<noteq> [] \<longrightarrow> highest_impact rs = Max (set (all_scores rs))) \<and>
   final_analysis rs =
     map (\<lambda>(d, scores). (d, map (\<lambda>(s, sc). (s,
            \<lparr>raw = py_round sc 6,
             scaled = (if 0 < highest_impact rs
                       then py_round (sc / highest_impact rs * 100) 2 else 0)\<rparr>)) scores)) rs \<and>
   (\<forall>(d, es)\<in>set (final_analysis rs). \<forall>(s, e)\<in>set es.
      scaled e \<le> 100 \<and> ((\<forall>sc\<in>set (all_scores rs). 0 \<le> sc) \<longrightarrow> 0 \<le> scaled e)) \<and>
   ((\<exists>sc\<in>set (all_scores rs). 0 < sc) \<longrightarrow>
      (\<exists>d es s e. (d, es) \<in> set (final_analysis rs) \<and> (s, e) \<in> set es \<and> scaled e = 100)) \<and>
   ((\<exists>d es s e. (d, es) \<in> set (final_analysis rs) \<and> (s, e) \<in> set es \<and> 0 < raw e) \<longrightarrow>
      (\<exists>d es s e. (d, es) \<in> set (final_analysis rs) \<and> (s, e) \<in> set es \<and> scaled e = 100)) \<and>
   (\<forall>sc. 0 \<le> sc \<longrightarrow> 0 \<le> scaled (final_entry (highest_impact rs) sc))"
proof (intro conjI impI allI)
  assume "all_scores rs = []"
  then show "highest_impact rs = 1" by (rule highest_impact_empty)
next
  assume "all_scores rs \<noteq> []"
  then show "highest_impact rs = Max (set (all_scores rs))" by (rule highest_impact_Max)
next
  show "final_analysis rs =
     map (\<lambda>(d, scores). (d, map (\<lambda>(s, sc). (s,
            \<lparr>raw = py_round sc 6,
             scaled = (if 0 < highest_impact rs
                       then py_round (sc / highest_impact rs * 100) 2 else 0)\<rparr>)) scores)) rs"
    by (simp add: final_analysis_def Let_def final_entry_def)
next
  show "\<forall>(d, es)\<in>set (final_analysis rs). \<forall>(s, e)\<in>set es.
      scaled e \<le> 100 \<and> ((\<forall>sc\<in>set (all_scores rs). 0 \<le> sc) \<longrightarrow> 0 \<le> scaled e)"
  proof (intro ballI, clarify)
    fix d es s e
    assume "(d, es) \<in> set (final_analysis rs)" and "(s, e) \<in> set es"
    from final_analysis_entry [OF this] obtain scores sc where
      ds: "(d, scores) \<in> set rs" and ss: "(s, sc) \<in> set scores"
      and e: "e = final_entry (highest_impact rs) sc"
      by blast
    from ds ss have m: "sc \<in> set (all_scores rs)"
      unfolding in_all_scores by blast
    have u: "scaled e \<le> 100"
      unfolding e using m by (rule scaled_final_entry_le)
    have l: "(\<forall>sc\<in>set (all_scores rs). 0 \<le> sc) \<longrightarrow> 0 \<le> scaled e"
      unfolding e using m scaled_final_entry_ge by blast
    from u l show "scaled e \<le> 100 \<and> ((\<forall>sc\<in>set (all_scores rs). 0 \<le> sc) \<longrightarrow> 0 \<le> scaled e)"
      by (rule conjI)
  qed
next
  assume "\<exists>sc\<in>set (all_scores rs). 0 < sc"
  then show "\<exists>d es s e. (d, es) \<in> set (final_analysis rs) \<and> (s, e) \<in> set es \<and> scaled e = 100"
    by (rule scaled_hundred_exists)
next
  assume "\<exists>d es s e. (d, es) \<in> set (final_analysis rs) \<and> (s, e) \<in> set es \<and> 0 < raw e"
  then obtain d es s e where de: "(d, es) \<in> set (final_analysis rs)"
    and se: "(s, e) \<in> set es" and r: "0 < raw e"
    by blast
  from final_analysis_entry [OF de se] obtain scores sc where
    ds: "(d, scores) \<in> set rs" and ss: "(s, sc) \<in> set scores"
    and e: "e = final_entry (highest_impact rs) sc"
    by blast
  from r have "0 < py_round sc 6" by (simp add: e final_entry_def)
  then have "0 < sc" by (rule py_round_pos_imp)
  moreover from ds ss have "sc \<in> set (all_scores rs)"
    unfolding in_all_scores by blast
  ultimately have "\<exists>sc\<in>set (all_scores rs). 0 < sc" by blast
  then show "\<exists>d es s e. (d, es) \<in> set (final_analysis rs) \<and> (s, e) \<in> set es \<and> scaled e = 100"
    by (rule scaled_hundred_exists)
next
  fix sc :: rat
  assume "0 \<le> sc"
  then show "0 \<le> scaled (final_entry (highest_impact rs) sc)"
    by (rule scaled_final_entry_ge)
qed

theorem rescaling_witness:
  "all_scores [(''FungalInfection'', [(''itching'', 1 / 20), (''skin_rash'', 3 / 4)])] \<noteq> [] \<and>
   highest_impact [(''FungalInfection'', [(''itching'', 1 / 20), (''skin_rash'', 3 / 4)])] =
     Max (set (all_scores [(''FungalInfection'', [(''itching'', 1 / 20), (''skin_rash'', 3 / 4)])])) \<and>
   scaled \<lparr>raw = 1 / 20, scaled = 667 / 100\<rparr> \<le> 100 \<and>
   0 \<le> scaled \<lparr>raw = 1 / 20, scaled = 667 / 100\<rparr> \<and>
   (\<exists>d es s e.
      (d, es) \<in> set (final_analysis
         [(''FungalInfection'', [(''itching'', 1 / 20), (''skin_rash'', 3 / 4)])]) \<and>
      (s, e) \<in> set es \<and> scaled e = 100)"
proof -
  let ?rs = "[(''FungalInfection'', [(''itching'', 1 / 20 :: rat), (''skin_rash'', 3 / 4)])]"
  let ?es = "[(''itching'', \<lparr>raw = 1 / 20, scaled = 667 / 100\<rparr>),
          (''skin_rash'', \<lparr>raw = 3 / 4, scaled = 100\<rparr>)]"
  note t = rescaling [of ?rs]
  have a: "all_scores ?rs \<noteq> []"
    by (simp add: all_scores_def)
  have b: "highest_impact ?rs = Max (set (all_scores ?rs))"
    using t [THEN conjunct2, THEN conjunct1] a by (rule mp)
  have f: "final_analysis ?rs = [(''FungalInfection'', ?es)]"
    by code_simp
  have m1: "(''FungalInfection'', ?es) \<in> set (final_analysis ?rs)"
    unfolding f by simp
  have m2: "(''itching'', \<lparr>raw = 1 / 20, scaled = 667 / 100\<rparr>) \<in> set ?es"
    by simp
  have n: "\<forall>sc\<in>set (all_scores ?rs). 0 \<le> sc"
    by (simp add: all_scores_def)
  have p: "\<exists>sc\<in>set (all_scores ?rs). 0 < sc"
    by (simp add: all_scores_def)
  from t [THEN conjunct2, THEN conjunct2, THEN conjunct2, THEN conjunct1] m1
  have "\<forall>(s, e)\<in>set ?es.
      scaled e \<le> 100 \<and> ((\<forall>sc\<in>set (all_scores ?rs). 0 \<le> sc) \<longrightarrow> 0 \<le> scaled e)"
    by fast
  with m2 have "scaled \<lparr>raw = 1 / 20, scaled = 667 / 100\<rparr> \<le> 100 \<and>
      ((\<forall>sc\<in>set (all_scores ?rs). 0 \<le> sc) \<longrightarrow> 0 \<le> scaled \<lparr>raw = 1 / 20, scaled = 667 / 100\<rparr>)"
    by fast
  with n have c: "scaled \<lparr>raw = 1 / 20, scaled = 667 / 100\<rparr> \<le> 100"
    and d: "0 \<le> scaled \<lparr>raw = 1 / 20, scaled = 667 / 100\<rparr>"
    by blast+
  have e: "\<exists>d es s e. (d, es) \<in> set (final_analysis ?rs) \<and> (s, e) \<in> set es \<and> scaled e = 100"
    using t [THEN conjunct2, THEN conjunct2, THEN conjunct2, THEN conjunct2, THEN conjunct1] p
    by (rule mp)
  from a b c d e show ?thesis by (intro conjI)
qed

text \<open>
  C5, as stated, fails: the analysis tests the raw symptom string against the feature names
  and does not clean it first. The symptom \<open>Itching\<close> is recognised by the encoder, which
  sets the dimension \<open>itching\<close>, and gets no contribution entry.
\<close>

theorem contribution_entries_counterexample:
  "clean_symptom ''Itching'' \<in> set [''itching''] \<and>
   encode_user_symptoms [''symptoms'' \<mapsto> [''Itching'']] [''itching''] Map.empty = [1] \<and>
   calculate_symptom_contributions
     \<lparr>model_classes = [''Flu''], predict_proba = (\<lambda>v. Inr [1])\<rparr>
     [''symptoms'' \<mapsto> [''Itching'']] [\<lparr>disease = ''Flu'', probability = 1\<rparr>]
     [''itching''] Map.empty = Inr [(''Flu'', [])]"
  by code_simp

text \<open>
  C5, amended. When the analysis returns, its result has one entry list per predicted
  disease, and each holds an entry for exactly the input symptoms whose raw string is itself
  a feature name; a symptom that only its cleaned form makes a feature name is skipped.
\<close>

theorem contribution_entries:
  assumes "calculate_symptom_contributions model rq preds fc sev = Inr out"
  shows "fst ` set out = disease ` set preds \<and>
     (\<forall>(d, es)\<in>set out.
        fst ` set es = {s \<in> set (dict_get rq ''symptoms'' []). s \<in> set fc})"
proof -
  let ?bv = "encode_user_symptoms rq fc sev"
  let ?sel = "dict_get rq ''symptoms'' []"
  from calculate_symptom_contributions_Inr [OF assms] obtain bps rs where
    rs: "raw_impact model sev (enum_dict (model_classes model)) (enum_dict fc)
       ?bv bps ?sel preds [] = Inr rs"
    and out: "out = final_analysis rs"
    by blast
  have k: "fst ` set rs = disease ` set preds"
    using raw_impact_keys [OF rs] by simp
  have "fst ` set (final_analysis rs) = fst ` set rs"
    by (force simp: final_analysis_def Let_def)
  with k have a: "fst ` set out = disease ` set preds"
    by (simp add: out)
  have b: "fst ` set es = {s \<in> set ?sel. s \<in> set fc}" if "(d, es) \<in> set out" for d es
  proof -
    from that obtain scores where ds: "(d, scores) \<in> set rs"
      and es: "es = map (\<lambda>(symptom, score). (symptom, final_entry (highest_impact rs) score)) scores"
      by (auto simp: out final_analysis_def Let_def)
    from raw_impact_entries [OF rs ds] obtain d_idx bp where
      "symptom_scores model sev (enum_dict fc) ?bv d_idx bp ?sel [] = Inr scores"
      by auto
    from symptom_scores_keys [OF this]
    have "fst ` set scores = {s \<in> set ?sel. enum_dict fc s \<noteq> None}" by simp
    moreover have "fst ` set es = fst ` set scores"
      unfolding es by force
    ultimately show ?thesis by (simp add: enum_dict_None)
  qed
  from a b show ?thesis by blast
qed

theorem contribution_entries_witness:
  "calculate_symptom_contributions demo_classifier
     [''symptoms'' \<mapsto> [''itching'', ''Skin Rash'']]
     [\<lparr>disease = ''FungalInfection'', probability = 95 / 100\<rparr>]
     [''itching'', ''skin_rash'', ''fatigue'']
     [''itching'' \<mapsto> 1, ''Skin Rash'' \<mapsto> 3] =
   Inr [(''FungalInfection'', [(''itching'', \<lparr>raw = 1 / 20, scaled = 100\<rparr>)])] \<and>
   fst ` set [(''FungalInfection'', [(''itching'', \<lparr>raw = 1 / 20, scaled = 100\<rparr>)])] =
     disease ` set [\<lparr>disease = ''FungalInfection'', probability = 95 / 100\<rparr>] \<and>
   fst ` set [(''itching'', \<lparr>raw = 1 / 20, scaled = 100\<rparr>)] =
     {s \<in> set (dict_get [''symptoms'' \<mapsto> [''itching'', ''Skin Rash'']] ''symptoms'' []).
        s \<in> set [''itching'', ''skin_rash'', ''fatigue'']}"
proof -
  let ?out = "[(''FungalInfection'', [(''itching'', \<lparr>raw = 1 / 20, scaled = 100\<rparr>)])]"
  have h: "calculate_symptom_contributions demo_classifier
     [''symptoms'' \<mapsto> [''itching'', ''Skin Rash'']]
     [\<lparr>disease = ''FungalInfection'', probability = 95 / 100\<rparr>]
     [''itching'', ''skin_rash'', ''fatigue'']
     [''itching'' \<mapsto> 1, ''Skin Rash'' \<mapsto> 3] = Inr ?out"
    by code_simp
  note t = contribution_entries [OF h]
  have m: "(''FungalInfection'', [(''itching'', \<lparr>raw = 1 / 20, scaled = 100\<rparr>)]) \<in> set ?out"
    by simp
  from t [THEN conjunct2] m
  have b: "fst ` set [(''itching'', \<lparr>raw = 1 / 20, scaled = 100\<rparr>)] =
     {s \<in> set (dict_get [''symptoms'' \<mapsto> [''itching'', ''Skin Rash'']] ''symptoms'' []).
        s \<in> set [''itching'', ''skin_rash'', ''fatigue'']}"
    by fast
  from h t [THEN conjunct1] b show ?thesis by (intro conjI)
qed

end
